theory Spec2Isabelle
  imports Main "HOL-Library.Sublist"
begin

section \<open>JavaScript values, exceptions and effects\<close>

text \<open>
  The editor is single threaded: every function of the sources is a state transformer
  that either returns a value or throws. A thrown exception is the left injection of
  the result, so each \<^verbatim>\<open>throw\<close>, each propagation through a caller and
  each \<^verbatim>\<open>finally\<close> block is a branch of the model.
\<close>

datatype exn = Error string | TypeError string | IndexSizeError

datatype any = Undefined | Null | Str string | Num int | Bool bool

type_synonym ('s, 'a) action = "'s \<Rightarrow> (exn + 'a) \<times> 's"

definition returns :: "'a \<Rightarrow> ('s, 'a) action" where
  "returns v s = (Inr v, s)"

definition throws :: "exn \<Rightarrow> ('s, 'a) action" where
  "throws e s = (Inl e, s)"

text \<open>Sequencing of two statements: the second runs only when the first returned.\<close>

definition andThen :: "('s, 'a) action \<Rightarrow> ('a \<Rightarrow> ('s, 'b) action) \<Rightarrow> ('s, 'b) action" where
  "andThen m k s = (case m s of (Inl e, s') \<Rightarrow> (Inl e, s') | (Inr v, s') \<Rightarrow> k v s')"

text \<open>
  \<^verbatim>\<open>try { body } finally { cleanup }\<close> where the cleanup is a plain assignment:
  it runs on both exits and the body's result, returned or thrown, is kept.
\<close>

definition tryFinally :: "('s, 'a) action \<Rightarrow> ('s \<Rightarrow> 's) \<Rightarrow> ('s, 'a) action" where
  "tryFinally body cleanup s = (case body s of (r, s') \<Rightarrow> (r, cleanup s'))"

text \<open>A statement executed for its effect only: the value is dropped.\<close>

definition discard :: "('s, 'a) action \<Rightarrow> ('s, unit) action" where
  "discard m = andThen m (\<lambda>_. returns ())"

section \<open>The editor core and the undo wrapper\<close>

datatype pluginEventType =
  KeyDown | KeyPress | KeyUp | CompositionEnd | MouseDown | MouseUp
  | ContentChanged | ExtractContent | EditorReady | BeforeDispose | Idle

record pluginEvent =
  eventType :: pluginEventType
  source :: "string option"
  data :: any

text \<open>
  The fields of \<^verbatim>\<open>EditorCore\<close> that \<^verbatim>\<open>runWithUndo.ts\<close> and the undo
  methods of \<^verbatim>\<open>Editor.ts\<close> read and write. \<open>content\<close> is the inner HTML of the
  content div. The undo service behind \<^verbatim>\<open>core.undo\<close> and the dispatcher behind
  \<^verbatim>\<open>core.api.triggerEvent\<close> are not among the sources: \<open>undoLog\<close> holds, oldest
  first, the content at each call of \<^verbatim>\<open>core.undo.addUndoSnapshot()\<close>, and
  \<open>dispatched\<close> the events handed to \<^verbatim>\<open>core.api.triggerEvent\<close>.
\<close>

record core =
  suspendUndo :: bool
  content :: string
  undoLog :: "string list"
  dispatched :: "pluginEvent list"

type_synonym 'a callback = "(core, 'a) action"

text \<open>
  Modelled from the spec: \<^verbatim>\<open>UndoService.addUndoSnapshot\<close> (the object in
  \<^verbatim>\<open>core.undo\<close>) is missing from the sources. Section 4.6 of the specification
  says it captures a snapshot of the content and pushes it; what the service then does
  with an identical snapshot or with a full stack is its own business, so the model
  records the request and the content it was made with.
\<close>

definition undo_addUndoSnapshot :: "core \<Rightarrow> core" where
  "undo_addUndoSnapshot c = c\<lparr>undoLog := undoLog c @ [content c]\<rparr>"

text \<open>
  Modelled from the spec: \<^verbatim>\<open>core.api.triggerEvent\<close> is missing from the sources.
  Section 6 of the specification makes the dispatcher an external collaborator that hands
  the event to the plugins; \<open>handlers\<close> is what the plugins' handlers do with an event,
  which can be any code that uses the editor and can throw.
\<close>

definition triggerEvent ::
  "(pluginEvent \<Rightarrow> unit callback) \<Rightarrow> pluginEvent \<Rightarrow> bool \<Rightarrow> unit callback" where
  "triggerEvent handlers event broadcast c = handlers event (c\<lparr>dispatched := dispatched c @ [event]\<rparr>)"

text \<open>JavaScript truthiness of \<^verbatim>\<open>changeSource\<close>: null, undefined and the empty string are falsy.\<close>

definition truthy :: "string option \<Rightarrow> bool" where
  "truthy changeSource = (case changeSource of None \<Rightarrow> False | Some s \<Rightarrow> s \<noteq> [])"

text \<open>
  An optional argument of a JavaScript function: left out (it reads as
  \<^verbatim>\<open>undefined\<close>), passed as \<^verbatim>\<open>null\<close>, or passed with a value.
\<close>

datatype 'a argument = LeftOut | PassedNull | Passed 'a

text \<open>
  \<^verbatim>\<open>getDataCallback && getDataCallback()\<close>: the data of the event. When
  \<^verbatim>\<open>getDataCallback\<close> is falsy the expression is \<^verbatim>\<open>getDataCallback\<close> itself,
  \<^verbatim>\<open>undefined\<close> or \<^verbatim>\<open>null\<close>.
\<close>

definition dataOf :: "any callback argument \<Rightarrow> any callback" where
  "dataOf getDataCallback =
     (case getDataCallback of
        LeftOut \<Rightarrow> returns Undefined
      | PassedNull \<Rightarrow> returns Null
      | Passed getData \<Rightarrow> getData)"

text \<open>
  \<^verbatim>\<open>runWithUndo(core, callback, changeSource, getDataCallback)\<close> of
  \<^verbatim>\<open>coreAPI/runWithUndo.ts\<close>. \<open>callback\<close> and \<open>changeSource\<close> are only
  tested for truthiness before they are used: they are \<open>None\<close> when the caller passes
  null or leaves them out.
\<close>

definition runWithUndo ::
  "(pluginEvent \<Rightarrow> unit callback) \<Rightarrow> core \<Rightarrow> any callback option \<Rightarrow> string option
     \<Rightarrow> any callback argument \<Rightarrow> (exn + unit) \<times> core" where
  "runWithUndo handlers core callback changeSource getDataCallback =
     (let isNested = suspendUndo core;
          core1 = (if \<not> isNested then (undo_addUndoSnapshot core)\<lparr>suspendUndo := True\<rparr> else core)
      in tryFinally
           (case callback of
              None \<Rightarrow> returns ()
            | Some cb \<Rightarrow>
                andThen cb (\<lambda>_.
                andThen (\<lambda>c. returns () (if \<not> isNested then undo_addUndoSnapshot c else c)) (\<lambda>_.
                  if \<not> isNested \<and> truthy changeSource then
                    andThen (dataOf getDataCallback)
                      (\<lambda>d. triggerEvent handlers
                              \<lparr>eventType = ContentChanged, source = changeSource, data = d\<rparr> True)
                  else returns ())))
           (\<lambda>c. if \<not> isNested then c\<lparr>suspendUndo := False\<rparr> else c)
           core1)"

text \<open>
  The undo methods of \<^verbatim>\<open>Editor.ts\<close>, on the core of an editor that has not been
  disposed. \<^verbatim>\<open>Editor.runWithUndo\<close> gives \<^verbatim>\<open>changeSource\<close> the default
  \<^verbatim>\<open>ChangeSource.Format\<close> when the argument is left out, and not when it is null.
\<close>

definition ChangeSource_Format :: string where
  "ChangeSource_Format = ''Format''"

definition Editor_runWithUndo ::
  "(pluginEvent \<Rightarrow> unit callback) \<Rightarrow> any callback option \<Rightarrow> string argument
     \<Rightarrow> any callback argument \<Rightarrow> unit callback" where
  "Editor_runWithUndo handlers callback changeSource getDataCallback c =
     runWithUndo handlers c callback
       (case changeSource of
          LeftOut \<Rightarrow> Some ChangeSource_Format
        | PassedNull \<Rightarrow> None
        | Passed s \<Rightarrow> Some s)
       getDataCallback"

definition Editor_runWithoutAddingUndoSnapshot :: "unit callback \<Rightarrow> unit callback" where
  "Editor_runWithoutAddingUndoSnapshot callback =
     tryFinally (\<lambda>c. callback (c\<lparr>suspendUndo := True\<rparr>)) (\<lambda>c. c\<lparr>suspendUndo := False\<rparr>)"

definition Editor_addUndoSnapshot :: "unit callback" where
  "Editor_addUndoSnapshot c = (if \<not> suspendUndo c then returns () (undo_addUndoSnapshot c) else returns () c)"

text \<open>
  What the formatting callbacks of the api package do to the document
  (\<^verbatim>\<open>vtable.writeBack()\<close>, \<^verbatim>\<open>execCommand\<close>): a direct change of the content.
\<close>

definition writeContent :: "string \<Rightarrow> any callback" where
  "writeContent html c = returns Undefined (c\<lparr>content := html\<rparr>)"

definition emptyCore :: "string \<Rightarrow> core" where
  "emptyCore html = \<lparr>suspendUndo = False, content = html, undoLog = [], dispatched = []\<rparr>"

definition noPlugins :: "pluginEvent \<Rightarrow> unit callback" where
  "noPlugins event = returns ()"

text \<open>
  A property a piece of editor code can have. \<open>keepsSuspended f\<close>: run with the
  suppression flag set, \<open>f\<close> leaves the flag set and requests no snapshot.
\<close>

definition keepsSuspended :: "'a callback \<Rightarrow> bool" where
  "keepsSuspended f \<longleftrightarrow>
     (\<forall>c. suspendUndo c \<longrightarrow> suspendUndo (snd (f c)) \<and> undoLog (snd (f c)) = undoLog c)"

text \<open>
  The notification in the words of the specification, to be compared with what
  \<open>runWithUndo\<close> hands to the dispatcher: there is one exactly when the call is the
  outermost one (the flag is clear on entry), a callback was given and returned and
  \<open>changeSource\<close> is non-empty, with one more condition, that \<open>getDataCallback\<close>,
  when given, returned; it is a content-changed event with \<open>changeSource\<close> as its
  source and the value of \<open>getDataCallback()\<close> as its data, or, without a data
  callback, the \<^verbatim>\<open>undefined\<close> or \<^verbatim>\<open>null\<close> that was passed for it.
\<close>

definition claimedNotification ::
  "core \<Rightarrow> any callback option \<Rightarrow> string option \<Rightarrow> any callback argument \<Rightarrow> pluginEvent option" where
  "claimedNotification c callback changeSource getDataCallback =
     (if suspendUndo c then None
      else case callback of
        None \<Rightarrow> None
      | Some cb \<Rightarrow>
          (case cb ((undo_addUndoSnapshot c)\<lparr>suspendUndo := True\<rparr>) of
             (Inl e, c2) \<Rightarrow> None
           | (Inr v, c2) \<Rightarrow>
               if \<not> truthy changeSource then None
               else (case getDataCallback of
                  LeftOut \<Rightarrow> Some \<lparr>eventType = ContentChanged, source = changeSource, data = Undefined\<rparr>
                | PassedNull \<Rightarrow> Some \<lparr>eventType = ContentChanged, source = changeSource, data = Null\<rparr>
                | Passed getData \<Rightarrow>
                    (case getData (undo_addUndoSnapshot c2) of
                       (Inl e, c3) \<Rightarrow> None
                     | (Inr d, c3) \<Rightarrow>
                         Some \<lparr>eventType = ContentChanged, source = changeSource, data = d\<rparr>))))"

text \<open>Editor code used as concrete inputs below.\<close>

definition failingEdit :: "any callback" where
  "failingEdit = andThen (writeContent ''<p>b</p>'') (\<lambda>_. throws (Error ''failed''))"

definition editTwice :: "any callback" where
  "editTwice =
     andThen (writeContent ''<p>b</p>'') (\<lambda>_.
     andThen (Editor_runWithUndo noPlugins (Some (writeContent ''<p>c</p>'')) LeftOut LeftOut) (\<lambda>_.
       returns Undefined))"

definition legacyEdit :: "any callback" where
  "legacyEdit =
     andThen (Editor_runWithoutAddingUndoSnapshot (discard (writeContent ''<p>b</p>''))) (\<lambda>_.
       returns Undefined)"

definition legacyThenNested :: "any callback" where
  "legacyThenNested =
     andThen legacyEdit (\<lambda>_.
     andThen (Editor_runWithUndo noPlugins (Some (writeContent ''<p>c</p>'')) LeftOut LeftOut) (\<lambda>_.
       returns Undefined))"

definition snapshotOnContentChanged :: "pluginEvent \<Rightarrow> unit callback" where
  "snapshotOnContentChanged event =
     (if eventType event = ContentChanged then Editor_addUndoSnapshot else returns ())"

section \<open>The life cycle of the editor\<close>

text \<open>
  \<^verbatim>\<open>Editor.dispose\<close> and \<^verbatim>\<open>Editor.runAsync\<close> call code the editor does not own:
  the plugins' event handlers and \<^verbatim>\<open>dispose\<close> methods, the disposers of the DOM event
  handlers, the disposers of the custom data and the callbacks handed to
  \<^verbatim>\<open>runAsync\<close>. Each such closure is known by what it is; calling it is recorded in
  \<open>invoked\<close>, and \<open>faults\<close> says which closures throw and what.
\<close>

datatype external =
    Handlers pluginEventType
  | PluginDispose string
  | EventDisposer string
  | DataDisposer string any
  | AsyncCallback string

record customDataEntry =
  dataValue :: any
  disposer :: "string option"

text \<open>
  The fields of \<^verbatim>\<open>EditorCore\<close> that \<^verbatim>\<open>dispose\<close> reads: the handle of the idle
  loop, the plugins by name, and the custom data, an object whose values can be null: the
  list holds its entries in the order in which \<^verbatim>\<open>Object.keys\<close> gives the keys.
\<close>

record resources =
  idleLoopHandle :: int
  plugins :: "string list"
  customData :: "(string \<times> customDataEntry option) list"

text \<open>
  The editor object: \<open>core\<close> is \<open>None\<close> once \<^verbatim>\<open>this.core = null\<close> has run.
  The rest of the record is what the editor acts on outside itself: the content div's
  \<^verbatim>\<open>contenteditable\<close> attribute and \<^verbatim>\<open>user-select\<close> style, the intervals
  cleared on the window, the callbacks waiting for the next animation frame, and the
  closures called so far.
\<close>

record editor =
  core :: "resources option"
  eventDisposers :: "string list option"
  omitContentEditable :: bool
  contentEditable :: bool
  userSelect :: string
  clearedIntervals :: "int list"
  animationFrames :: "string option list"
  invoked :: "external list"

definition invoke :: "(external \<Rightarrow> exn option) \<Rightarrow> external \<Rightarrow> (editor, unit) action" where
  "invoke faults x e =
     ((case faults x of None \<Rightarrow> Inr () | Some err \<Rightarrow> Inl err), e\<lparr>invoked := invoked e @ [x]\<rparr>)"

text \<open>\<^verbatim>\<open>Array.prototype.forEach\<close> and \<^verbatim>\<open>for ... of\<close>: in order, and an exception ends the loop.\<close>

fun forEach :: "('a \<Rightarrow> ('s, unit) action) \<Rightarrow> 'a list \<Rightarrow> ('s, unit) action" where
  "forEach f [] = returns ()"
| "forEach f (x # xs) = andThen (f x) (\<lambda>_. forEach f xs)"

text \<open>Reading a field of \<^verbatim>\<open>this.core\<close> throws a TypeError when the core is null.\<close>

definition withCore :: "(resources \<Rightarrow> (editor, 'a) action) \<Rightarrow> (editor, 'a) action" where
  "withCore f e =
     (case core e of
        None \<Rightarrow> throws (TypeError ''Cannot read property of null'') e
      | Some c \<Rightarrow> f c e)"

definition isDisposed :: "editor \<Rightarrow> bool" where
  "isDisposed e = (core e = None)"

definition Editor_triggerEvent ::
  "(external \<Rightarrow> exn option) \<Rightarrow> pluginEventType \<Rightarrow> (editor, unit) action" where
  "Editor_triggerEvent faults ty = withCore (\<lambda>c. invoke faults (Handlers ty))"

text \<open>
  \<^verbatim>\<open>Editor.dispose\<close>, statement by statement: the before-dispose event, the idle loop,
  the plugins, the event disposers, the custom data, the content div, and the core.
\<close>

definition clearIdleLoop :: "(editor, unit) action" where
  "clearIdleLoop =
     withCore (\<lambda>c e.
       if idleLoopHandle c > 0 then
         returns () (e\<lparr>clearedIntervals := clearedIntervals e @ [idleLoopHandle c],
                       core := Some (c\<lparr>idleLoopHandle := 0\<rparr>)\<rparr>)
       else returns () e)"

definition disposePlugins :: "(external \<Rightarrow> exn option) \<Rightarrow> (editor, unit) action" where
  "disposePlugins faults =
     withCore (\<lambda>c. forEach (\<lambda>plugin. invoke faults (PluginDispose plugin)) (plugins c))"

definition disposeEvents :: "(external \<Rightarrow> exn option) \<Rightarrow> (editor, unit) action" where
  "disposeEvents faults e =
     (case eventDisposers e of
        None \<Rightarrow> throws (TypeError ''Cannot read property of null'') e
      | Some ds \<Rightarrow>
          andThen (forEach (\<lambda>d. invoke faults (EventDisposer d)) ds)
            (\<lambda>_ e'. returns () (e'\<lparr>eventDisposers := None\<rparr>)) e)"

definition disposeEntry :: "(external \<Rightarrow> exn option) \<Rightarrow> string \<Rightarrow> (editor, unit) action" where
  "disposeEntry faults key =
     withCore (\<lambda>c.
       andThen
         (case map_of (customData c) key of
            Some (Some d) \<Rightarrow>
              (case disposer d of
                 Some name \<Rightarrow> invoke faults (DataDisposer name (dataValue d))
               | None \<Rightarrow> returns ())
          | _ \<Rightarrow> returns ())
         (\<lambda>_. withCore (\<lambda>c' e. returns ()
            (e\<lparr>core := Some (c'\<lparr>customData := filter (\<lambda>kv. fst kv \<noteq> key) (customData c')\<rparr>)\<rparr>))))"

definition disposeCustomData :: "(external \<Rightarrow> exn option) \<Rightarrow> (editor, unit) action" where
  "disposeCustomData faults =
     withCore (\<lambda>c. forEach (disposeEntry faults) (map fst (customData c)))"

definition releaseContentDiv :: "(editor, unit) action" where
  "releaseContentDiv e =
     (if \<not> omitContentEditable e then returns () (e\<lparr>userSelect := [], contentEditable := False\<rparr>)
      else returns () e)"

definition dispose :: "(external \<Rightarrow> exn option) \<Rightarrow> (editor, unit) action" where
  "dispose faults =
     andThen (Editor_triggerEvent faults BeforeDispose) (\<lambda>_.
     andThen clearIdleLoop (\<lambda>_.
     andThen (disposePlugins faults) (\<lambda>_.
     andThen (disposeEvents faults) (\<lambda>_.
     andThen (disposeCustomData faults) (\<lambda>_.
     andThen releaseContentDiv (\<lambda>_ e.
       returns () (e\<lparr>core := None\<rparr>)))))))"

text \<open>
  \<^verbatim>\<open>Editor.runAsync(callback)\<close> hands a closure to
  \<^verbatim>\<open>requestAnimationFrame\<close>; \<open>runAsync_frame\<close> is that closure and
  \<open>animationFrame\<close> the window running the oldest waiting one. A callback that is
  null or left out is \<open>None\<close>.
\<close>

definition runAsync_frame :: "(external \<Rightarrow> exn option) \<Rightarrow> string option \<Rightarrow> (editor, unit) action" where
  "runAsync_frame faults callback e =
     (case callback of
        Some name \<Rightarrow> if \<not> isDisposed e then invoke faults (AsyncCallback name) e else returns () e
      | None \<Rightarrow> returns () e)"

definition runAsync :: "string option \<Rightarrow> (editor, unit) action" where
  "runAsync callback =
     withCore (\<lambda>c e. returns () (e\<lparr>animationFrames := animationFrames e @ [callback]\<rparr>))"

definition animationFrame :: "(external \<Rightarrow> exn option) \<Rightarrow> (editor, unit) action" where
  "animationFrame faults e =
     (case animationFrames e of
        [] \<Rightarrow> returns () e
      | callback # rest \<Rightarrow> runAsync_frame faults callback (e\<lparr>animationFrames := rest\<rparr>))"

text \<open>
  The teardown actions of an editor in the order \<open>dispose\<close> reaches them, the first
  exception among them, and the actions up to and including the one that throws it.
\<close>

definition dataDisposers :: "(string \<times> customDataEntry option) list \<Rightarrow> external list" where
  "dataDisposers entries =
     concat (map (\<lambda>kv. case snd kv of
                          Some d \<Rightarrow> (case disposer d of
                                        Some name \<Rightarrow> [DataDisposer name (dataValue d)]
                                      | None \<Rightarrow> [])
                        | None \<Rightarrow> []) entries)"

definition teardown :: "resources \<Rightarrow> string list \<Rightarrow> external list" where
  "teardown c ds =
     Handlers BeforeDispose # map PluginDispose (plugins c) @ map EventDisposer ds
       @ dataDisposers (customData c)"

fun firstFault :: "(external \<Rightarrow> exn option) \<Rightarrow> external list \<Rightarrow> exn option" where
  "firstFault faults [] = None"
| "firstFault faults (x # xs) = (case faults x of None \<Rightarrow> firstFault faults xs | Some err \<Rightarrow> Some err)"

fun upToFault :: "(external \<Rightarrow> exn option) \<Rightarrow> external list \<Rightarrow> external list" where
  "upToFault faults [] = []"
| "upToFault faults (x # xs) = (case faults x of None \<Rightarrow> x # upToFault faults xs | Some err \<Rightarrow> [x])"

definition outcome :: "exn option \<Rightarrow> exn + unit" where
  "outcome fault = (case fault of None \<Rightarrow> Inr () | Some err \<Rightarrow> Inl err)"

text \<open>An editor with two plugins, two event disposers and two custom data entries.\<close>

definition exampleEditor :: editor where
  "exampleEditor =
     \<lparr>core = Some \<lparr>idleLoopHandle = 7, plugins = [''Paste'', ''HyperLink''],
                    customData = [(''cache'', Some \<lparr>dataValue = Num 1, disposer = Some ''freeCache''\<rparr>),
                                  (''flag'', Some \<lparr>dataValue = Bool True, disposer = None\<rparr>)]\<rparr>,
      eventDisposers = Some [''keydown'', ''blur''],
      omitContentEditable = False, contentEditable = True, userSelect = ''text'',
      clearedIntervals = [], animationFrames = [], invoked = []\<rparr>"

definition noFaults :: "external \<Rightarrow> exn option" where
  "noFaults x = None"

definition pasteFails :: "external \<Rightarrow> exn option" where
  "pasteFails x = (if x = PluginDispose ''Paste'' then Some (Error ''paste'') else None)"

definition allFail :: "external \<Rightarrow> exn option" where
  "allFail x = Some (Error ''late'')"

definition disposedWithFrame :: editor where
  "disposedWithFrame =
     snd (andThen (runAsync (Some ''later'')) (\<lambda>_. dispose noFaults) exampleEditor)"

section \<open>The document tree, scopers, ranges and editor points\<close>

text \<open>
  The document is a tree of text nodes, comment nodes and elements. A node is known by
  its path from the root of the tree, the list of child indexes that leads to it, so two
  references are the same node exactly when the paths are equal, and a path that leads
  nowhere is a node that is not in the document.
\<close>

datatype dom = Text string | Comment string | Element string "dom list"

type_synonym node = "nat list"

fun nodeAt :: "dom \<Rightarrow> node \<Rightarrow> dom option" where
  "nodeAt d [] = Some d"
| "nodeAt (Element tag children) (i # path) =
     (if i < length children then nodeAt (children ! i) path else None)"
| "nodeAt (Text t) (i # path) = None"
| "nodeAt (Comment t) (i # path) = None"

text \<open>The DOM's \<^verbatim>\<open>node.contains(other)\<close>: \<open>other\<close> is \<open>node\<close> or one of its descendants.\<close>

definition Node_contains :: "dom \<Rightarrow> node \<Rightarrow> node \<Rightarrow> bool" where
  "Node_contains doc n other \<longleftrightarrow> nodeAt doc n \<noteq> None \<and> nodeAt doc other \<noteq> None \<and> prefix n other"

datatype nodeType = NodeType_Element | NodeType_Text | NodeType_Comment

fun nodeTypeOf :: "dom \<Rightarrow> nodeType" where
  "nodeTypeOf (Element tag children) = NodeType_Element"
| "nodeTypeOf (Text t) = NodeType_Text"
| "nodeTypeOf (Comment t) = NodeType_Comment"

fun characterData :: "dom \<Rightarrow> string" where
  "characterData (Text t) = t"
| "characterData (Comment t) = t"
| "characterData (Element tag children) = []"

fun childNodes :: "dom \<Rightarrow> dom list" where
  "childNodes (Element tag children) = children"
| "childNodes (Text t) = []"
| "childNodes (Comment t) = []"

text \<open>
  The largest offset a boundary point can have in a node: the length of the data of a
  text or comment node, the number of children of an element.
\<close>

fun maxOffsetOfNode :: "dom \<Rightarrow> nat" where
  "maxOffsetOfNode (Text t) = length t"
| "maxOffsetOfNode (Element tag children) = length children"
| "maxOffsetOfNode (Comment t) = length t"

subsection \<open>Block elements and the body scoper\<close>

text \<open>
  Modelled from the spec: the declaration of \<^verbatim>\<open>BlockElement\<close> is missing from the
  sources. Section 3 of the specification has two variants, a node-block anchored to one
  container node and a start-end block anchored to a pair of sibling nodes, and makes two
  blocks equal when their start and end nodes match. \<^verbatim>\<open>InlineElement\<close> is missing as
  well: a text run between two offsets of a text node, or a single void element.
\<close>

datatype blockElement = NodeBlockElement node | StartEndBlockElement node node

fun getStartNode :: "blockElement \<Rightarrow> node" where
  "getStartNode (NodeBlockElement n) = n"
| "getStartNode (StartEndBlockElement s e) = s"

fun getEndNode :: "blockElement \<Rightarrow> node" where
  "getEndNode (NodeBlockElement n) = n"
| "getEndNode (StartEndBlockElement s e) = e"

definition equals :: "blockElement \<Rightarrow> blockElement \<Rightarrow> bool" where
  "equals b1 b2 \<longleftrightarrow> getStartNode b1 = getStartNode b2 \<and> getEndNode b1 = getEndNode b2"

datatype inlineElement = TextInline node nat nat | VoidInline node

text \<open>\<^verbatim>\<open>class BodyScoper\<close> of \<^verbatim>\<open>scopers/BodyScoper.ts\<close>.\<close>

datatype bodyScoper = BodyScoper (rootNode: node)

definition BodyScoper_isBlockInScope :: "dom \<Rightarrow> bodyScoper \<Rightarrow> blockElement \<Rightarrow> bool" where
  "BodyScoper_isBlockInScope doc scoper blockElement =
     Node_contains doc (rootNode scoper) (getStartNode blockElement)"

definition BodyScoper_trimInlineElement :: "bodyScoper \<Rightarrow> 'i \<Rightarrow> 'i" where
  "BodyScoper_trimInlineElement scoper inlineElement = inlineElement"

subsection \<open>Positions and the block scoper\<close>

text \<open>
  Modelled from the spec: the class \<^verbatim>\<open>Position\<close> is missing from the sources.
  Section 3 of the specification gives it a container node, an offset and a resolved
  flag \<^verbatim>\<open>isAtEnd\<close>; \<^verbatim>\<open>SelectionRange\<close> reads the first two.
\<close>

record position =
  node :: node
  offset :: nat
  isAtEnd :: bool

text \<open>
  Modelled from the spec: \<^verbatim>\<open>BlockScoper\<close>, the block lookup it is built on and
  the normalization of positions are missing from the sources; only the test of the scoper
  is there. Sections 3 and 4.1 of the specification: a position whose container is an
  element is pushed down to the deepest text or void leaf at the matching offset, and
  stays as it is when there is no such leaf; a position in a text node stays as it is.
  Section 4.2: the block at a position is found by walking upward from the position's
  container until a block-level ancestor within the root is found (a node-block); when
  there is none, the block is the maximal run of inline siblings that holds the position,
  ended by a line break or by the edge of the container (a start-end block). The
  block-level tags are the ones the specification names: paragraph, div, list item and
  table cell; the void elements are the image and the line break. Section 4.4: the scope
  of a block scoper is the single block that holds the given position, and a block is in
  scope exactly when it equals that block.
\<close>

definition isVoid :: "string \<Rightarrow> bool" where
  "isVoid tag \<longleftrightarrow> tag \<in> set [''IMG'', ''BR'']"

fun firstLeaf :: "dom \<Rightarrow> node option" where
  "firstLeaf (Text t) = Some []"
| "firstLeaf (Comment t) = None"
| "firstLeaf (Element tag []) = (if isVoid tag then Some [] else None)"
| "firstLeaf (Element tag (c # cs)) = map_option ((#) 0) (firstLeaf c)"

function lastLeaf :: "dom \<Rightarrow> node option" where
  "lastLeaf (Text t) = Some []"
| "lastLeaf (Comment t) = None"
| "lastLeaf (Element tag cs) =
     (if cs = [] then (if isVoid tag then Some [] else None)
      else map_option ((#) (length cs - 1)) (lastLeaf (last cs)))"
  by pat_completeness auto
termination
proof (relation "measure size")
  show "wf (measure (size :: dom \<Rightarrow> nat))" by simp
next
  fix tag :: string and cs :: "dom list"
  assume "cs \<noteq> []"
  then have "last cs \<in> set cs" by simp
  then have "size (last cs) \<le> size_list size cs" by (rule size_list_estimation') simp
  then show "(last cs, Element tag cs) \<in> measure size" by simp
qed

definition normalize :: "dom \<Rightarrow> position \<Rightarrow> position" where
  "normalize doc p =
     (case nodeAt doc (node p) of
        Some (Element tag cs) \<Rightarrow>
          if offset p < length cs then
            (case firstLeaf (cs ! offset p) of
               Some leaf \<Rightarrow>
                 \<lparr>node = node p @ offset p # leaf, offset = 0,
                  isAtEnd = (case nodeAt (cs ! offset p) leaf of
                               Some d \<Rightarrow> maxOffsetOfNode d = 0 | None \<Rightarrow> False)\<rparr>
             | None \<Rightarrow> p)
          else if cs \<noteq> [] then
            (case lastLeaf (last cs) of
               Some leaf \<Rightarrow>
                 \<lparr>node = node p @ (length cs - 1) # leaf,
                  offset = (case nodeAt (last cs) leaf of Some d \<Rightarrow> maxOffsetOfNode d | None \<Rightarrow> 0),
                  isAtEnd = True\<rparr>
             | None \<Rightarrow> p)
          else p
      | _ \<Rightarrow> p)"

definition isBlockLevel :: "dom \<Rightarrow> bool" where
  "isBlockLevel d =
     (case d of Element tag children \<Rightarrow> tag \<in> set [''P'', ''DIV'', ''LI'', ''TD'', ''TH''] | _ \<Rightarrow> False)"

definition isLineBreak :: "dom \<Rightarrow> bool" where
  "isLineBreak d = (case d of Element tag children \<Rightarrow> tag = ''BR'' | _ \<Rightarrow> False)"

definition blockAncestor :: "dom \<Rightarrow> node \<Rightarrow> node \<Rightarrow> node option" where
  "blockAncestor doc root n =
     find (\<lambda>a. case nodeAt doc a of Some d \<Rightarrow> isBlockLevel d | None \<Rightarrow> False)
       (filter (strict_prefix root) (rev (prefixes n)))"

fun runStart :: "dom list \<Rightarrow> nat \<Rightarrow> nat" where
  "runStart siblings 0 = 0"
| "runStart siblings (Suc j) =
     (if isBlockLevel (siblings ! j) \<or> isLineBreak (siblings ! j) then Suc j else runStart siblings j)"

definition runEnd :: "dom list \<Rightarrow> nat \<Rightarrow> nat" where
  "runEnd siblings i =
     (if isLineBreak (siblings ! i) then i
      else let rest = drop (Suc i) siblings;
               k = length (takeWhile (\<lambda>d. \<not> isBlockLevel d \<and> \<not> isLineBreak d) rest)
           in if k < length rest \<and> isLineBreak (rest ! k) then i + k + 1 else i + k)"

definition blockElementAtPosition :: "dom \<Rightarrow> node \<Rightarrow> position \<Rightarrow> blockElement option" where
  "blockElementAtPosition doc root p =
     (let n = node (normalize doc p)
      in if \<not> (strict_prefix root n \<and> nodeAt doc n \<noteq> None) then None
         else case blockAncestor doc root n of
           Some a \<Rightarrow> Some (NodeBlockElement a)
         | None \<Rightarrow>
             (case nodeAt doc root of
                Some (Element tag siblings) \<Rightarrow>
                  (let i = n ! length root
                   in Some (StartEndBlockElement (root @ [runStart siblings i])
                                                 (root @ [runEnd siblings i])))
              | _ \<Rightarrow> None))"

datatype contentPosition = Begin | End | SelectionStart

record blockScoper =
  scopeRoot :: node
  block :: "blockElement option"
  startPosition :: contentPosition

definition newBlockScoper :: "dom \<Rightarrow> node \<Rightarrow> position \<Rightarrow> contentPosition \<Rightarrow> blockScoper" where
  "newBlockScoper doc root p startAt =
     \<lparr>scopeRoot = root, block = blockElementAtPosition doc root p, startPosition = startAt\<rparr>"

definition BlockScoper_isBlockInScope :: "blockScoper \<Rightarrow> blockElement \<Rightarrow> bool" where
  "BlockScoper_isBlockInScope scoper blockElement =
     (case block scoper of None \<Rightarrow> False | Some b \<Rightarrow> equals b blockElement)"

text \<open>The content of the scoper tests: \<^verbatim>\<open><p>part1</p><p>part2</p>\<close> in the editor's div.\<close>

definition twoParagraphs :: dom where
  "twoParagraphs = Element ''DIV'' [Element ''P'' [Text ''part1''], Element ''P'' [Text ''part2'']]"

text \<open>An anchor in the first paragraph: in the paragraph or below it, or at the start of the root.\<close>

definition anchoredAtPart1 :: "position \<Rightarrow> bool" where
  "anchoredAtPart1 p \<longleftrightarrow> prefix [0] (node p) \<or> node p = [] \<and> offset p = 0"

text \<open>The content of another scoper test: \<^verbatim>\<open>www.example.com<br>\<close>, with no block container.\<close>

definition urlAndBreak :: dom where
  "urlAndBreak = Element ''DIV'' [Text ''www.example.com'', Element ''BR'' []]"

subsection \<open>Selection ranges\<close>

text \<open>
  The browser's \<^verbatim>\<open>Range\<close>, and \<^verbatim>\<open>class SelectionRange\<close> with its constructor.
  The constructor takes a raw range, or a start position and an optional end position.
  The constructor of \<^verbatim>\<open>Position\<close> is not among the sources and is the parameter
  \<open>newPosition\<close>. The field \<^verbatim>\<open>end\<close> is written \<open>end'\<close>.
\<close>

record range =
  startContainer :: node
  startOffset :: int
  endContainer :: node
  endOffset :: int

record selectionRange =
  collapsed :: bool
  start :: position
  end' :: position
  rawRange :: "range option"

datatype startOrRawRange = FromRange range | FromPosition position

definition SelectionRange ::
  "(node \<Rightarrow> int \<Rightarrow> position) \<Rightarrow> startOrRawRange \<Rightarrow> position option \<Rightarrow> selectionRange" where
  "SelectionRange newPosition startOrRawRange endArg =
     (let (raw, s, e) =
        (case startOrRawRange of
           FromRange r \<Rightarrow>
             (Some r, newPosition (startContainer r) (startOffset r),
                      newPosition (endContainer r) (endOffset r))
         | FromPosition p \<Rightarrow> (None, p, (case endArg of Some q \<Rightarrow> q | None \<Rightarrow> p)))
      in \<lparr>collapsed = (node s = node e \<and> offset s = offset e), start = s, end' = e, rawRange = raw\<rparr>)"

text \<open>Equality of positions as the specification words it: the same container and the same offset.\<close>

definition samePosition :: "position \<Rightarrow> position \<Rightarrow> bool" where
  "samePosition p q \<longleftrightarrow> node p = node q \<and> offset p = offset q"

subsection \<open>Editor points and the restored selection\<close>

record editorPoint =
  containerNode :: "node option"
  offset :: int

text \<open>
  Modelled from the spec: \<^verbatim>\<open>Editor.contains(node)\<close> hands the content div and the
  node to the dom package's \<^verbatim>\<open>contains\<close>, which is missing from the sources. By the
  documentation of \<^verbatim>\<open>Editor.contains\<close> it tells whether the node falls in the editor
  content: the node is in the document, below the content div.
\<close>

definition Editor_contains :: "dom \<Rightarrow> node \<Rightarrow> node \<Rightarrow> bool" where
  "Editor_contains doc contentDiv n \<longleftrightarrow>
     nodeAt doc contentDiv \<noteq> None \<and> nodeAt doc n \<noteq> None \<and> strict_prefix contentDiv n"

text \<open>
  \<^verbatim>\<open>validateEditorPoint(editor, point)\<close> of \<^verbatim>\<open>format/keepSelection.ts\<close>. It
  assigns to \<^verbatim>\<open>point.offset\<close>, so the point comes back with the verdict. A container
  that is null is \<open>None\<close>; a container that is not a node of the document is not in the
  editor either.
\<close>

definition validateEditorPoint :: "dom \<Rightarrow> node \<Rightarrow> editorPoint \<Rightarrow> bool \<times> editorPoint" where
  "validateEditorPoint doc contentDiv point =
     (case containerNode point of
        None \<Rightarrow> (False, point)
      | Some n \<Rightarrow>
          (case nodeAt doc n of
             None \<Rightarrow> (False, point)
           | Some d \<Rightarrow>
               if Editor_contains doc contentDiv n then
                 (let point' =
                    (if nodeTypeOf d = NodeType_Text then
                       point\<lparr>offset := min (offset point) (int (length (characterData d)))\<rparr>
                     else if nodeTypeOf d = NodeType_Element then
                       point\<lparr>offset := min (offset point) (int (length (childNodes d)))\<rparr>
                     else point)
                  in (offset point' \<ge> 0, point'))
               else (False, point)))"

text \<open>
  The DOM's \<^verbatim>\<open>range.setStart(node, offset)\<close> and \<^verbatim>\<open>range.setEnd(node, offset)\<close>
  throw an IndexSizeError when the offset is greater than the length of the node; the
  offset is an unsigned number, so a negative one is too large as well.
\<close>

definition acceptsBoundary :: "dom \<Rightarrow> editorPoint \<Rightarrow> bool" where
  "acceptsBoundary doc point =
     (case containerNode point of
        None \<Rightarrow> False
      | Some n \<Rightarrow>
          (case nodeAt doc n of
             None \<Rightarrow> False
           | Some d \<Rightarrow> 0 \<le> offset point \<and> offset point \<le> int (maxOffsetOfNode d)))"

text \<open>
  What \<^verbatim>\<open>keepSelection\<close> does after the callback has run: \<open>selection\<close> is the range
  read before the callback with the two points as the callback left them (\<open>None\<close> when
  there was no range, and then no points), \<open>fb\<close> what the callback returned. The result is
  what is done to the range before it goes to \<^verbatim>\<open>editor.updateSelection\<close>: its
  boundaries set from the two points, a node selected, or a range passed as it is; or the
  exception that ends \<^verbatim>\<open>keepSelection\<close>.
\<close>

datatype fallback = FallbackNode node | FallbackRange range | NoFallback

datatype selectionUpdate =
    SetStartEnd range editorPoint editorPoint
  | SelectNode range node
  | UseRange "range option"

definition useFallback :: "range option \<Rightarrow> fallback \<Rightarrow> exn + selectionUpdate" where
  "useFallback r fb =
     (case fb of
        FallbackNode n \<Rightarrow>
          (case r of None \<Rightarrow> Inl (TypeError ''Cannot read property selectNode of null'')
                   | Some r' \<Rightarrow> Inr (SelectNode r' n))
      | FallbackRange fr \<Rightarrow> Inr (UseRange (Some fr))
      | NoFallback \<Rightarrow> Inr (UseRange r))"

definition keepSelection_restore ::
  "dom \<Rightarrow> node \<Rightarrow> (range \<times> editorPoint \<times> editorPoint) option \<Rightarrow> fallback
     \<Rightarrow> exn + selectionUpdate" where
  "keepSelection_restore doc contentDiv selection fb =
     (case selection of
        None \<Rightarrow> useFallback None fb
      | Some (r, startPoint, endPoint) \<Rightarrow>
          (case validateEditorPoint doc contentDiv startPoint of
             (False, startPoint') \<Rightarrow> useFallback (Some r) fb
           | (True, startPoint') \<Rightarrow>
               (case validateEditorPoint doc contentDiv endPoint of
                  (False, endPoint') \<Rightarrow> useFallback (Some r) fb
                | (True, endPoint') \<Rightarrow>
                    if \<not> acceptsBoundary doc startPoint' then Inl IndexSizeError
                    else if \<not> acceptsBoundary doc endPoint' then Inl IndexSizeError
                    else Inr (SetStartEnd r startPoint' endPoint'))))"



section \<open>Properties of the undo wrapper\<close>

subsection \<open>The four exits of an outermost call, and the nested call\<close>

lemma runWithUndo_nested:
  "suspendUndo c \<Longrightarrow>
   runWithUndo handlers c callback changeSource getDataCallback =
     (case callback of None \<Rightarrow> (Inr (), c) | Some cb \<Rightarrow> discard cb c)"
  by (cases callback)
     (auto simp: runWithUndo_def tryFinally_def andThen_def returns_def discard_def
           split: prod.splits sum.splits)

lemma runWithUndo_outermost:
  "\<not> suspendUndo c \<Longrightarrow>
   runWithUndo handlers c (Some cb) changeSource getDataCallback =
     tryFinally
       (andThen cb (\<lambda>_. andThen (\<lambda>s. returns () (undo_addUndoSnapshot s)) (\<lambda>_.
          if truthy changeSource then
            andThen (dataOf getDataCallback)
              (\<lambda>d. triggerEvent handlers \<lparr>eventType = ContentChanged, source = changeSource, data = d\<rparr> True)
          else returns ())))
       (\<lambda>s. s\<lparr>suspendUndo := False\<rparr>)
       ((undo_addUndoSnapshot c)\<lparr>suspendUndo := True\<rparr>)"
  by (simp add: runWithUndo_def)

lemma outermost_throws:
  assumes "\<not> suspendUndo c" "cb ((undo_addUndoSnapshot c)\<lparr>suspendUndo := True\<rparr>) = (Inl e, c2)"
  shows "runWithUndo handlers c (Some cb) changeSource getDataCallback = (Inl e, c2\<lparr>suspendUndo := False\<rparr>)"
  using assms by (simp add: runWithUndo_outermost tryFinally_def andThen_def)

lemma outermost_no_source:
  assumes "\<not> suspendUndo c" "cb ((undo_addUndoSnapshot c)\<lparr>suspendUndo := True\<rparr>) = (Inr v, c2)"
    "\<not> truthy changeSource"
  shows "runWithUndo handlers c (Some cb) changeSource getDataCallback =
           (Inr (), (undo_addUndoSnapshot c2)\<lparr>suspendUndo := False\<rparr>)"
  using assms by (simp add: runWithUndo_outermost tryFinally_def andThen_def returns_def)

lemma outermost_data_throws:
  assumes "\<not> suspendUndo c" "cb ((undo_addUndoSnapshot c)\<lparr>suspendUndo := True\<rparr>) = (Inr v, c2)"
    "truthy changeSource" "dataOf getDataCallback (undo_addUndoSnapshot c2) = (Inl e, c3)"
  shows "runWithUndo handlers c (Some cb) changeSource getDataCallback = (Inl e, c3\<lparr>suspendUndo := False\<rparr>)"
  using assms by (simp add: runWithUndo_outermost tryFinally_def andThen_def returns_def)

lemma outermost_fires:
  assumes "\<not> suspendUndo c" "cb ((undo_addUndoSnapshot c)\<lparr>suspendUndo := True\<rparr>) = (Inr v, c2)"
    "truthy changeSource" "dataOf getDataCallback (undo_addUndoSnapshot c2) = (Inr d, c3)"
    "handlers \<lparr>eventType = ContentChanged, source = changeSource, data = d\<rparr>
       (c3\<lparr>dispatched := dispatched c3 @ [\<lparr>eventType = ContentChanged, source = changeSource, data = d\<rparr>]\<rparr>)
     = (r, c4)"
  shows "runWithUndo handlers c (Some cb) changeSource getDataCallback = (r, c4\<lparr>suspendUndo := False\<rparr>)"
  using assms by (simp add: runWithUndo_outermost tryFinally_def andThen_def returns_def triggerEvent_def)

lemmas undo_eval =
  Editor_runWithUndo_def runWithUndo_def Editor_runWithoutAddingUndoSnapshot_def
  Editor_addUndoSnapshot_def undo_addUndoSnapshot_def triggerEvent_def truthy_def dataOf_def
  ChangeSource_Format_def tryFinally_def andThen_def returns_def throws_def discard_def
  writeContent_def emptyCore_def noPlugins_def

subsection \<open>Code that keeps the suppression flag\<close>

lemma keepsSuspendedD:
  assumes "keepsSuspended f" and "suspendUndo c" and "f c = (r, c')"
  shows "suspendUndo c' \<and> undoLog c' = undoLog c"
proof -
  from assms(1) have "suspendUndo c \<longrightarrow> suspendUndo (snd (f c)) \<and> undoLog (snd (f c)) = undoLog c"
    unfolding keepsSuspended_def by (rule spec)
  with assms(2,3) show ?thesis by simp
qed

lemma keepsSuspended_returns: "keepsSuspended (returns v)"
  by (simp add: keepsSuspended_def returns_def)

lemma keepsSuspended_throws: "keepsSuspended (throws e)"
  by (simp add: keepsSuspended_def throws_def)

lemma keepsSuspended_writeContent: "keepsSuspended (writeContent html)"
  by (simp add: keepsSuspended_def writeContent_def returns_def)

lemma keepsSuspended_andThen:
  assumes "keepsSuspended m" and "\<And>v. keepsSuspended (k v)"
  shows "keepsSuspended (andThen m k)"
  unfolding keepsSuspended_def
proof (intro allI impI)
  fix c :: core
  assume s: "suspendUndo c"
  obtain r c' where m: "m c = (r, c')" by (cases "m c")
  from keepsSuspendedD[OF assms(1) s m] have c': "suspendUndo c'" "undoLog c' = undoLog c" by auto
  show "suspendUndo (snd (andThen m k c)) \<and> undoLog (snd (andThen m k c)) = undoLog c"
  proof (cases r)
    case (Inl e)
    with m c' show ?thesis by (simp add: andThen_def)
  next
    case (Inr v)
    obtain r2 c2 where k: "k v c' = (r2, c2)" by (cases "k v c'")
    from keepsSuspendedD[OF assms(2) c'(1) k] c'(2) m Inr k show ?thesis by (simp add: andThen_def)
  qed
qed

lemma keepsSuspended_discard: "keepsSuspended m \<Longrightarrow> keepsSuspended (discard m)"
  unfolding discard_def by (rule keepsSuspended_andThen) (auto intro: keepsSuspended_returns)

lemma keepsSuspended_addUndoSnapshot: "keepsSuspended Editor_addUndoSnapshot"
  by (simp add: keepsSuspended_def Editor_addUndoSnapshot_def returns_def)

lemma keepsSuspended_runWithUndo:
  assumes "pred_option keepsSuspended callback"
  shows "keepsSuspended (\<lambda>c. runWithUndo handlers c callback changeSource getDataCallback)"
proof (cases callback)
  case None
  then show ?thesis by (simp add: keepsSuspended_def runWithUndo_nested)
next
  case (Some cb)
  with assms have "keepsSuspended (discard cb)" by (simp add: keepsSuspended_discard)
  with Some show ?thesis by (simp add: keepsSuspended_def runWithUndo_nested)
qed

lemma keepsSuspended_Editor_runWithUndo:
  "pred_option keepsSuspended callback \<Longrightarrow>
   keepsSuspended (Editor_runWithUndo handlers callback changeSource getDataCallback)"
  unfolding Editor_runWithUndo_def by (rule keepsSuspended_runWithUndo)

lemma keepsSuspended_dataOf:
  "pred_argument keepsSuspended getDataCallback \<Longrightarrow> keepsSuspended (dataOf getDataCallback)"
  by (cases getDataCallback) (simp_all add: dataOf_def keepsSuspended_returns)

text \<open>
  The undo log of an outermost call whose callback, data callback and event handlers keep
  the flag: the snapshot before the callback and, when the callback returned, the one
  after it; nothing else.
\<close>

lemma runWithUndo_outermost_undoLog:
  assumes out: "\<not> suspendUndo c"
    and cb: "keepsSuspended cb"
    and gd: "pred_argument keepsSuspended getDataCallback"
    and pl: "\<And>event. keepsSuspended (handlers event)"
  shows "undoLog (snd (runWithUndo handlers c (Some cb) changeSource getDataCallback)) =
           undoLog c @ content c #
             (case cb ((undo_addUndoSnapshot c)\<lparr>suspendUndo := True\<rparr>) of
                (Inl e, c') \<Rightarrow> [] | (Inr v, c') \<Rightarrow> [content c'])"
proof -
  let ?c1 = "(undo_addUndoSnapshot c)\<lparr>suspendUndo := True\<rparr>"
  obtain r c2 where run: "cb ?c1 = (r, c2)" by (cases "cb ?c1")
  have c2: "suspendUndo c2" "undoLog c2 = undoLog c @ [content c]"
    using keepsSuspendedD[OF cb _ run] by (simp_all add: undo_addUndoSnapshot_def)
  show ?thesis
  proof (cases r)
    case (Inl e)
    with outermost_throws[OF out, of cb e c2] run c2 show ?thesis by simp
  next
    case (Inr v)
    let ?c3 = "undo_addUndoSnapshot c2"
    have c3: "suspendUndo ?c3" "undoLog ?c3 = undoLog c @ [content c, content c2]"
      using c2 by (simp_all add: undo_addUndoSnapshot_def)
    show ?thesis
    proof (cases "truthy changeSource")
      case False
      with outermost_no_source[OF out, of cb v c2 changeSource] run Inr c3 show ?thesis by simp
    next
      case True
      obtain rd c4 where g: "dataOf getDataCallback ?c3 = (rd, c4)"
        by (cases "dataOf getDataCallback ?c3")
      from keepsSuspendedD[OF keepsSuspended_dataOf[OF gd] c3(1) g] c3(2)
      have c4: "suspendUndo c4" "undoLog c4 = undoLog c @ [content c, content c2]" by simp_all
      show ?thesis
      proof (cases rd)
        case (Inl e)
        with outermost_data_throws[OF out, of cb v c2 changeSource getDataCallback e c4]
          run Inr True g c4 show ?thesis by simp
      next
        case d: (Inr d)
        let ?ev = "\<lparr>eventType = ContentChanged, source = changeSource, data = d\<rparr>"
        let ?c5 = "c4\<lparr>dispatched := dispatched c4 @ [?ev]\<rparr>"
        obtain rp c6 where p: "handlers ?ev ?c5 = (rp, c6)" by (cases "handlers ?ev ?c5")
        from keepsSuspendedD[OF pl _ p] c4
        have "undoLog c6 = undoLog c @ [content c, content c2]" by simp
        with outermost_fires[OF out, of cb v c2 changeSource getDataCallback d c4 handlers rp c6]
          run Inr True g d p show ?thesis by simp
      qed
    qed
  qed
qed

subsection \<open>Nested calls\<close>

text \<open>
  An outermost call whose callback runs some editor code, then a nested
  \<open>Editor.runWithUndo\<close>, then some more editor code, all of it code that keeps the
  suppression flag (document edits, \<open>Editor.addUndoSnapshot\<close>, further nested calls),
  requests the snapshot before the callback and, when the callback returns, the snapshot
  after it, and nothing else: the nested call adds neither a before- nor an
  after-snapshot.
\<close>

lemma nested_runWithUndo_adds_no_snapshot:
  assumes "\<not> suspendUndo c"
    and "keepsSuspended before" and "pred_option keepsSuspended inner" and "keepsSuspended after"
    and "pred_argument keepsSuspended getDataCallback" and "\<And>event. keepsSuspended (handlers event)"
  shows "undoLog (snd (runWithUndo handlers c
            (Some (andThen before (\<lambda>_.
                   andThen (Editor_runWithUndo handlers inner innerSource innerData) (\<lambda>_. after))))
            changeSource getDataCallback)) =
         undoLog c @ content c #
           (case andThen before (\<lambda>_.
                   andThen (Editor_runWithUndo handlers inner innerSource innerData) (\<lambda>_. after))
                 ((undo_addUndoSnapshot c)\<lparr>suspendUndo := True\<rparr>) of
              (Inl e, c') \<Rightarrow> [] | (Inr v, c') \<Rightarrow> [content c'])"
proof -
  have "keepsSuspended (andThen before (\<lambda>_.
          andThen (Editor_runWithUndo handlers inner innerSource innerData) (\<lambda>_. after)))"
    using assms(2-4)
    by (intro keepsSuspended_andThen keepsSuspended_Editor_runWithUndo)
  from runWithUndo_outermost_undoLog[OF assms(1) this assms(5,6)] show ?thesis .
qed

text \<open>An edit, a nested edit, and the two snapshots of the outermost call.\<close>

lemma nested_runWithUndo_example:
  "runWithUndo noPlugins (emptyCore ''<p>a</p>'') (Some editTwice) (Some ''Format'') LeftOut
   = (Inr (),
      \<lparr>suspendUndo = False, content = ''<p>c</p>'', undoLog = [''<p>a</p>'', ''<p>c</p>''],
       dispatched = [\<lparr>eventType = ContentChanged, source = Some ''Format'', data = Undefined\<rparr>]\<rparr>)"
  by (simp add: editTwice_def undo_eval)

text \<open>
  C1 fails on the code where the callback of the outer call went through
  \<open>Editor.runWithoutAddingUndoSnapshot\<close> before it calls the inner \<open>runWithUndo\<close>. The
  legacy method sets the flag and, on exit, clears it whatever it was before; the inner
  call, made during the outer one's callback, finds the flag clear and takes itself for
  the outermost call. It requests a before- and an after-snapshot of its own and
  dispatches an event of its own: four snapshots and two events for one compound edit,
  where the documentation of \<open>Editor.runWithUndo\<close> promises that a nested call adds
  none.
\<close>

theorem nested_after_legacyEdit:
  "Editor_runWithUndo noPlugins (Some legacyThenNested) LeftOut LeftOut (emptyCore ''<p>a</p>'')
   = (Inr (),
      \<lparr>suspendUndo = False, content = ''<p>c</p>'',
       undoLog = [''<p>a</p>'', ''<p>b</p>'', ''<p>c</p>'', ''<p>c</p>''],
       dispatched = [\<lparr>eventType = ContentChanged, source = Some ''Format'', data = Undefined\<rparr>,
                     \<lparr>eventType = ContentChanged, source = Some ''Format'', data = Undefined\<rparr>]\<rparr>)"
  by (simp add: legacyThenNested_def legacyEdit_def undo_eval)

text \<open>The legacy method is not code that keeps the suppression flag.\<close>

lemma legacyEdit_clears_flag: "\<not> keepsSuspended legacyEdit"
proof
  assume "keepsSuspended legacyEdit"
  from keepsSuspendedD[OF this, of "(emptyCore [])\<lparr>suspendUndo := True\<rparr>"
      "fst (legacyEdit ((emptyCore [])\<lparr>suspendUndo := True\<rparr>))"
      "snd (legacyEdit ((emptyCore [])\<lparr>suspendUndo := True\<rparr>))"]
  show False by (simp add: legacyEdit_def undo_eval)
qed

subsection \<open>A callback that throws\<close>

text \<open>
  C2. An outermost call (the flag is clear on entry) whose callback throws: the callback
  was started after the before-snapshot was requested and with the flag set; the exception
  reaches the caller; the final state is the state the callback left with the flag cleared,
  so the undo log and the dispatched events are exactly what the callback left: no
  after-snapshot is requested and no content-changed event is dispatched.
\<close>

theorem runWithUndo_callback_throws:
  assumes "\<not> suspendUndo c"
    and "cb ((undo_addUndoSnapshot c)\<lparr>suspendUndo := True\<rparr>) = (Inl e, c')"
  shows "runWithUndo handlers c (Some cb) changeSource getDataCallback = (Inl e, c'\<lparr>suspendUndo := False\<rparr>)
       \<and> undoLog ((undo_addUndoSnapshot c)\<lparr>suspendUndo := True\<rparr>) = undoLog c @ [content c]
       \<and> \<not> suspendUndo (snd (runWithUndo handlers c (Some cb) changeSource getDataCallback))
       \<and> undoLog (snd (runWithUndo handlers c (Some cb) changeSource getDataCallback)) = undoLog c'
       \<and> dispatched (snd (runWithUndo handlers c (Some cb) changeSource getDataCallback)) = dispatched c'"
  using assms
  by (simp add: runWithUndo_outermost tryFinally_def andThen_def undo_addUndoSnapshot_def)

theorem runWithUndo_callback_throws_witness:
  "\<not> suspendUndo (emptyCore ''<p>a</p>'')
   \<and> failingEdit ((undo_addUndoSnapshot (emptyCore ''<p>a</p>''))\<lparr>suspendUndo := True\<rparr>)
       = (Inl (Error ''failed''),
          \<lparr>suspendUndo = True, content = ''<p>b</p>'', undoLog = [''<p>a</p>''], dispatched = []\<rparr>)
   \<and> runWithUndo snapshotOnContentChanged (emptyCore ''<p>a</p>'') (Some failingEdit) (Some ''Format'') LeftOut
       = (Inl (Error ''failed''),
          \<lparr>suspendUndo = False, content = ''<p>b</p>'', undoLog = [''<p>a</p>''], dispatched = []\<rparr>)"
proof -
  have o: "\<not> suspendUndo (emptyCore ''<p>a</p>'')" by (simp add: emptyCore_def)
  have t: "failingEdit ((undo_addUndoSnapshot (emptyCore ''<p>a</p>''))\<lparr>suspendUndo := True\<rparr>)
             = (Inl (Error ''failed''),
                \<lparr>suspendUndo = True, content = ''<p>b</p>'', undoLog = [''<p>a</p>''], dispatched = []\<rparr>)"
    by (simp add: failingEdit_def undo_eval)
  from runWithUndo_callback_throws
         [where cb = failingEdit and c = "emptyCore ''<p>a</p>''" and handlers = snapshotOnContentChanged
            and changeSource = "Some ''Format''" and getDataCallback = LeftOut, OF o t]
  show ?thesis using o t by simp
qed

text \<open>The same holds when the edit that throws is itself a nested call.\<close>

lemma failing_nested_edit_single_snapshot:
  "runWithUndo noPlugins (emptyCore ''<p>a</p>'')
     (Some (andThen (Editor_runWithUndo noPlugins (Some failingEdit) LeftOut LeftOut)
              (\<lambda>_. returns Undefined)))
     (Some ''Format'') LeftOut
   = (Inl (Error ''failed''),
      \<lparr>suspendUndo = False, content = ''<p>b</p>'', undoLog = [''<p>a</p>''], dispatched = []\<rparr>)"
  by (simp add: failingEdit_def undo_eval)

subsection \<open>The content-changed notification\<close>

text \<open>
  What an invocation hands to the dispatcher shows in how its result depends on
  \<open>handlers\<close>, the code the dispatcher runs: the callback and the data callback are
  given and run whatever \<open>handlers\<close> is, so \<open>handlers\<close> is reached through the
  invocation's own \<open>triggerEvent\<close> and in no other way.

  C4 (amended). Whatever the callback and the data callback do, nested calls of
  \<open>runWithUndo\<close> included: when the claimed notification is none, the result of
  \<open>runWithUndo\<close> is the same for all handlers, so the dispatcher is not called; when it
  is an event, there is one state, the same for all handlers, such that the result is what
  the handlers make of that event in that state with the event recorded as dispatched,
  followed by the clearing of the flag, so the dispatcher is called once, with that
  event. The claimed notification is a content-changed event carrying \<open>changeSource\<close>
  and the value of \<open>getDataCallback()\<close>, and there is one exactly when the call is the
  outermost one, a callback was given and returned, \<open>changeSource\<close> is non-empty and
  \<open>getDataCallback\<close>, when given, returned as well.
\<close>

theorem runWithUndo_notification:
  "(case claimedNotification c callback changeSource getDataCallback of
      None \<Rightarrow>
        (\<forall>handlers handlers'.
           runWithUndo handlers c callback changeSource getDataCallback =
           runWithUndo handlers' c callback changeSource getDataCallback)
    | Some event \<Rightarrow>
        (\<exists>s. \<forall>handlers.
           runWithUndo handlers c callback changeSource getDataCallback =
             (case handlers event (s\<lparr>dispatched := dispatched s @ [event]\<rparr>) of
                (r, s') \<Rightarrow> (r, s'\<lparr>suspendUndo := False\<rparr>))))"
proof (cases callback)
  case None
  then show ?thesis
    by (simp add: runWithUndo_def claimedNotification_def)
next
  case (Some f)
  show ?thesis
  proof (cases "suspendUndo c")
    case True
    with Some show ?thesis
      by (simp add: runWithUndo_nested claimedNotification_def)
  next
    case out: False
    let ?c1 = "(undo_addUndoSnapshot c)\<lparr>suspendUndo := True\<rparr>"
    obtain r c2 where f: "f ?c1 = (r, c2)" by (cases "f ?c1")
    show ?thesis
    proof (cases r)
      case (Inl e)
      with f have run: "f ?c1 = (Inl e, c2)" by simp
      have "claimedNotification c callback changeSource getDataCallback = None"
        using Some out run by (simp add: claimedNotification_def)
      then show ?thesis
        using Some by (simp add: outermost_throws[where cb = f, OF out run])
    next
      case (Inr v)
      with f have run: "f ?c1 = (Inr v, c2)" by simp
      let ?c3 = "undo_addUndoSnapshot c2"
      show ?thesis
      proof (cases "truthy changeSource")
        case nt: False
        have "claimedNotification c callback changeSource getDataCallback = None"
          using Some out run nt by (simp add: claimedNotification_def)
        then show ?thesis
          using Some by (simp add: outermost_no_source[where cb = f, OF out run nt])
      next
        case t: True
        obtain rd c4 where d: "dataOf getDataCallback ?c3 = (rd, c4)"
          by (cases "dataOf getDataCallback ?c3")
        show ?thesis
        proof (cases rd)
          case (Inl e)
          with d have dt: "dataOf getDataCallback ?c3 = (Inl e, c4)" by simp
          have "claimedNotification c callback changeSource getDataCallback = None"
            using Some out run t dt
            by (cases getDataCallback) (simp_all add: claimedNotification_def dataOf_def returns_def)
          then show ?thesis
            using Some by (simp add: outermost_data_throws[where cb = f, OF out run t dt])
        next
          case (Inr dval)
          with d have dr: "dataOf getDataCallback ?c3 = (Inr dval, c4)" by simp
          let ?ev = "\<lparr>eventType = ContentChanged, source = changeSource, data = dval\<rparr>"
          have n: "claimedNotification c callback changeSource getDataCallback = Some ?ev"
            using Some out run t dr
            by (cases getDataCallback) (auto simp: claimedNotification_def dataOf_def returns_def)
          have "runWithUndo handlers c (Some f) changeSource getDataCallback =
                  (case handlers ?ev (c4\<lparr>dispatched := dispatched c4 @ [?ev]\<rparr>) of
                     (r, s') \<Rightarrow> (r, s'\<lparr>suspendUndo := False\<rparr>))" for handlers
          proof -
            obtain rp c6 where p: "handlers ?ev (c4\<lparr>dispatched := dispatched c4 @ [?ev]\<rparr>) = (rp, c6)"
              by (cases "handlers ?ev (c4\<lparr>dispatched := dispatched c4 @ [?ev]\<rparr>)")
            from outermost_fires[where cb = f and handlers = handlers, OF out run t dr p] p
            show ?thesis by simp
          qed
          then have "\<exists>s. \<forall>handlers.
              runWithUndo handlers c (Some f) changeSource getDataCallback =
                (case handlers ?ev (s\<lparr>dispatched := dispatched s @ [?ev]\<rparr>) of
                   (r, s') \<Rightarrow> (r, s'\<lparr>suspendUndo := False\<rparr>))"
            by (intro exI[of _ c4] allI)
          with n Some show ?thesis by simp
        qed
      qed
    qed
  qed
qed

text \<open>
  The notification of an outermost call whose callback holds a nested call, with a data
  callback, and with a data callback passed as null.
\<close>

lemma runWithUndo_notification_example:
  "claimedNotification (emptyCore ''<p>a</p>'') (Some editTwice) (Some ''Format'') (Passed (returns (Str ''table'')))
     = Some \<lparr>eventType = ContentChanged, source = Some ''Format'', data = Str ''table''\<rparr>
   \<and> dispatched (snd (runWithUndo noPlugins (emptyCore ''<p>a</p>'') (Some editTwice)
        (Some ''Format'') (Passed (returns (Str ''table'')))))
     = [\<lparr>eventType = ContentChanged, source = Some ''Format'', data = Str ''table''\<rparr>]
   \<and> dispatched (snd (runWithUndo noPlugins (emptyCore ''<p>a</p>'') (Some editTwice)
        (Some ''Format'') PassedNull))
     = [\<lparr>eventType = ContentChanged, source = Some ''Format'', data = Null\<rparr>]"
  by (simp add: claimedNotification_def editTwice_def undo_eval)

text \<open>
  C4 as stated fails where \<open>getDataCallback\<close> throws: the call is the outermost one, the
  callback returned and \<open>changeSource\<close> is non-empty, yet no event is dispatched; the
  exception of the data callback reaches the caller after both snapshots.
\<close>

theorem no_notification_when_getDataCallback_throws:
  "\<not> suspendUndo (emptyCore ''<p>a</p>'')
   \<and> fst (writeContent ''<p>b</p>'' ((undo_addUndoSnapshot (emptyCore ''<p>a</p>''))\<lparr>suspendUndo := True\<rparr>))
       = Inr Undefined
   \<and> truthy (Some ''Format'')
   \<and> runWithUndo noPlugins (emptyCore ''<p>a</p>'') (Some (writeContent ''<p>b</p>''))
        (Some ''Format'') (Passed (throws (Error ''no data'')))
      = (Inl (Error ''no data''),
         \<lparr>suspendUndo = False, content = ''<p>b</p>'', undoLog = [''<p>a</p>'', ''<p>b</p>''],
          dispatched = []\<rparr>)"
  by (simp add: undo_eval)

subsection \<open>The flag during the notification\<close>

text \<open>
  When the callback and the data callback keep the flag, the handlers of the
  content-changed event run with the flag set: forcing the flag on before the handlers
  run changes nothing.
\<close>

lemma notification_runs_suspended:
  assumes out: "\<not> suspendUndo c"
    and cb: "keepsSuspended cb"
    and gd: "pred_argument keepsSuspended getDataCallback"
  shows "runWithUndo handlers c (Some cb) changeSource getDataCallback =
         runWithUndo (\<lambda>event s. handlers event (s\<lparr>suspendUndo := True\<rparr>)) c (Some cb)
           changeSource getDataCallback"
proof -
  let ?forced = "\<lambda>event s. handlers event (s\<lparr>suspendUndo := True\<rparr>)"
  let ?c1 = "(undo_addUndoSnapshot c)\<lparr>suspendUndo := True\<rparr>"
  obtain r c2 where run: "cb ?c1 = (r, c2)" by (cases "cb ?c1")
  have c2: "suspendUndo c2" using keepsSuspendedD[OF cb _ run] by simp
  show ?thesis
  proof (cases r)
    case (Inl e)
    with run show ?thesis
      by (simp add: outermost_throws[OF out])
  next
    case (Inr v)
    let ?c3 = "undo_addUndoSnapshot c2"
    have c3: "suspendUndo ?c3" using c2 by (simp add: undo_addUndoSnapshot_def)
    show ?thesis
    proof (cases "truthy changeSource")
      case False
      with run Inr show ?thesis by (simp add: outermost_no_source[OF out])
    next
      case True
      obtain rd c4 where g: "dataOf getDataCallback ?c3 = (rd, c4)"
        by (cases "dataOf getDataCallback ?c3")
      from keepsSuspendedD[OF keepsSuspended_dataOf[OF gd] c3 g] have c4: "suspendUndo c4" by simp
      show ?thesis
      proof (cases rd)
        case (Inl e)
        with run Inr True g show ?thesis by (simp add: outermost_data_throws[OF out])
      next
        case d: (Inr d)
        let ?ev = "\<lparr>eventType = ContentChanged, source = changeSource, data = d\<rparr>"
        let ?c5 = "c4\<lparr>dispatched := dispatched c4 @ [?ev]\<rparr>"
        have same: "?c5\<lparr>suspendUndo := True\<rparr> = ?c5" using c4 by simp
        obtain rp c6 where p: "handlers ?ev ?c5 = (rp, c6)" by (cases "handlers ?ev ?c5")
        have p': "?forced ?ev ?c5 = (rp, c6)" using p same by simp
        from run Inr g d have run': "cb ?c1 = (Inr v, c2)" and g': "dataOf getDataCallback ?c3 = (Inr d, c4)"
          by simp_all
        show ?thesis
          using outermost_fires[where cb = cb and handlers = handlers, OF out run' True g' p]
            outermost_fires[where cb = cb and handlers = ?forced, OF out run' True g' p']
          by simp
      qed
    qed
  qed
qed

lemma Editor_addUndoSnapshot_suspended: "suspendUndo c \<Longrightarrow> Editor_addUndoSnapshot c = (Inr (), c)"
  by (simp add: Editor_addUndoSnapshot_def returns_def)

text \<open>
  C10 fails on the code where the callback went through
  \<open>Editor.runWithoutAddingUndoSnapshot\<close>: the flag is clear again when the event is
  dispatched, and a handler that calls \<open>Editor.addUndoSnapshot\<close> during the notification
  adds a third snapshot to the two of the outermost call.
\<close>

theorem notification_after_legacyEdit:
  "Editor_runWithUndo snapshotOnContentChanged (Some legacyEdit) LeftOut LeftOut (emptyCore ''<p>a</p>'')
   = (Inr (),
      \<lparr>suspendUndo = False, content = ''<p>b</p>'',
       undoLog = [''<p>a</p>'', ''<p>b</p>'', ''<p>b</p>''],
       dispatched = [\<lparr>eventType = ContentChanged, source = Some ''Format'', data = Undefined\<rparr>]\<rparr>)"
  by (simp add: legacyEdit_def snapshotOnContentChanged_def undo_eval)

text \<open>The same handler after a callback that edits the document directly adds nothing.\<close>

lemma notification_after_plain_edit:
  "Editor_runWithUndo snapshotOnContentChanged (Some (writeContent ''<p>b</p>'')) LeftOut LeftOut
     (emptyCore ''<p>a</p>'')
   = (Inr (),
      \<lparr>suspendUndo = False, content = ''<p>b</p>'',
       undoLog = [''<p>a</p>'', ''<p>b</p>''],
       dispatched = [\<lparr>eventType = ContentChanged, source = Some ''Format'', data = Undefined\<rparr>]\<rparr>)"
  by (simp add: snapshotOnContentChanged_def undo_eval)

section \<open>Properties of the life cycle\<close>

subsection \<open>The loops of dispose\<close>

lemma firstFault_append:
  "firstFault faults (xs @ ys) =
     (case firstFault faults xs of None \<Rightarrow> firstFault faults ys | Some err \<Rightarrow> Some err)"
  by (induction xs) (simp_all split: option.splits)

lemma upToFault_append:
  "upToFault faults (xs @ ys) =
     (case firstFault faults xs of None \<Rightarrow> xs @ upToFault faults ys | Some err \<Rightarrow> upToFault faults xs)"
  by (induction xs) (simp_all split: option.splits)

lemma upToFault_all: "firstFault faults xs = None \<Longrightarrow> upToFault faults xs = xs"
  by (induction xs) (simp_all split: option.splits)

lemma forEach_invoke:
  "forEach (\<lambda>x. invoke faults (f x)) xs e =
     (outcome (firstFault faults (map f xs)), e\<lparr>invoked := invoked e @ upToFault faults (map f xs)\<rparr>)"
proof (induction xs arbitrary: e)
  case Nil
  then show ?case by (simp add: returns_def outcome_def)
next
  case (Cons x xs)
  show ?case
  proof (cases "faults (f x)")
    case None
    then have "invoke faults (f x) e = (Inr (), e\<lparr>invoked := invoked e @ [f x]\<rparr>)"
      by (simp add: invoke_def)
    with None show ?thesis by (simp add: andThen_def Cons.IH)
  next
    case (Some err)
    then have "invoke faults (f x) e = (Inl err, e\<lparr>invoked := invoked e @ [f x]\<rparr>)"
      by (simp add: invoke_def)
    with Some show ?thesis by (simp add: andThen_def outcome_def)
  qed
qed

lemma filter_other_keys:
  "k \<notin> fst ` set rest \<Longrightarrow> filter (\<lambda>kv. fst kv \<noteq> k) rest = rest"
  by (induction rest) auto

lemma disposeCustomData_loop:
  assumes "core e = Some c" and "customData c = es" and "distinct (map fst es)"
  shows "fst (forEach (disposeEntry faults) (map fst es) e) = outcome (firstFault faults (dataDisposers es))
       \<and> invoked (snd (forEach (disposeEntry faults) (map fst es) e))
           = invoked e @ upToFault faults (dataDisposers es)
       \<and> core (snd (forEach (disposeEntry faults) (map fst es) e)) \<noteq> None
       \<and> omitContentEditable (snd (forEach (disposeEntry faults) (map fst es) e)) = omitContentEditable e"
  using assms
proof (induction es arbitrary: e c)
  case Nil
  then show ?case by (simp add: returns_def outcome_def dataDisposers_def)
next
  case (Cons kv rest)
  obtain k v where kv: "kv = (k, v)" by (cases kv)
  from Cons.prems kv have fresh: "k \<notin> fst ` set rest" and d: "distinct (map fst rest)" by auto
  let ?c' = "c\<lparr>customData := rest\<rparr>"
  have del: "filter (\<lambda>x. fst x \<noteq> k) (customData c) = rest"
    using Cons.prems(2) kv filter_other_keys[OF fresh] by simp
  show ?case
  proof (cases "\<exists>d name. v = Some d \<and> disposer d = Some name")
    case False
    then have quiet: "dataDisposers (kv # rest) = dataDisposers rest"
      using kv by (auto simp: dataDisposers_def split: option.splits)
    let ?e' = "e\<lparr>core := Some ?c'\<rparr>"
    have step: "disposeEntry faults k e = (Inr (), ?e')"
      using False Cons.prems(1,2) kv del
      by (auto simp: disposeEntry_def withCore_def andThen_def returns_def split: option.splits)
    have "core ?e' = Some ?c'" "customData ?c' = rest" by simp_all
    from Cons.IH[OF this d] step quiet kv show ?thesis
      by (simp add: andThen_def)
  next
    case True
    then obtain d name where v: "v = Some d" "disposer d = Some name" by blast
    let ?x = "DataDisposer name (dataValue d)"
    have acts: "dataDisposers (kv # rest) = ?x # dataDisposers rest"
      using kv v by (simp add: dataDisposers_def)
    show ?thesis
    proof (cases "faults ?x")
      case (Some err)
      have step: "disposeEntry faults k e = (Inl err, e\<lparr>invoked := invoked e @ [?x]\<rparr>)"
        using v Some Cons.prems(1,2) kv
        by (simp add: disposeEntry_def withCore_def andThen_def invoke_def)
      with acts Some kv Cons.prems(1) show ?thesis
        by (simp add: andThen_def outcome_def)
    next
      case None
      let ?e' = "e\<lparr>invoked := invoked e @ [?x], core := Some ?c'\<rparr>"
      have step: "disposeEntry faults k e = (Inr (), ?e')"
        using v None Cons.prems(1,2) kv del
        by (simp add: disposeEntry_def withCore_def andThen_def invoke_def returns_def)
      have "core ?e' = Some ?c'" "customData ?c' = rest" by simp_all
      from Cons.IH[OF this d] step acts None kv show ?thesis
        by (simp add: andThen_def)
    qed
  qed
qed

lemma dispose_start:
  assumes live: "core e = Some c" and h: "faults (Handlers BeforeDispose) = None"
  shows "\<exists>e1 c1. andThen (Editor_triggerEvent faults BeforeDispose) (\<lambda>_. andThen clearIdleLoop k) e = k () e1
           \<and> core e1 = Some c1 \<and> plugins c1 = plugins c \<and> customData c1 = customData c
           \<and> eventDisposers e1 = eventDisposers e \<and> omitContentEditable e1 = omitContentEditable e
           \<and> invoked e1 = invoked e @ [Handlers BeforeDispose]"
proof (cases "idleLoopHandle c > 0")
  case True
  let ?e1 = "e\<lparr>invoked := invoked e @ [Handlers BeforeDispose],
               clearedIntervals := clearedIntervals e @ [idleLoopHandle c],
               core := Some (c\<lparr>idleLoopHandle := 0\<rparr>)\<rparr>"
  have "andThen (Editor_triggerEvent faults BeforeDispose) (\<lambda>_. andThen clearIdleLoop k) e = k () ?e1"
    using live h True
    by (simp add: Editor_triggerEvent_def clearIdleLoop_def withCore_def invoke_def andThen_def returns_def)
  then show ?thesis
    by (intro exI[of _ ?e1] exI[of _ "c\<lparr>idleLoopHandle := 0\<rparr>"]) simp
next
  case False
  let ?e1 = "e\<lparr>invoked := invoked e @ [Handlers BeforeDispose]\<rparr>"
  have "andThen (Editor_triggerEvent faults BeforeDispose) (\<lambda>_. andThen clearIdleLoop k) e = k () ?e1"
    using live h False
    by (simp add: Editor_triggerEvent_def clearIdleLoop_def withCore_def invoke_def andThen_def returns_def)
  then show ?thesis
    using live by (intro exI[of _ ?e1] exI[of _ c]) simp
qed

subsection \<open>Disposal\<close>

text \<open>
  C3 (amended). \<open>dispose\<close> calls the teardown actions of a live editor in order: the
  handlers of the before-dispose event, the \<open>dispose\<close> of every plugin, every event
  disposer and every custom data disposer. It goes on as long as they return. When all of
  them return, all of them have been called and the editor is disposed. The first one that
  throws ends \<open>dispose\<close>: its exception reaches the caller, the actions after it are not
  called and the editor is not marked disposed.
\<close>

theorem dispose_stops_at_first_throw:
  assumes live: "core e = Some c" and ev: "eventDisposers e = Some ds"
    and keys: "distinct (map fst (customData c))"
  shows "fst (dispose faults e) = outcome (firstFault faults (teardown c ds))
       \<and> invoked (snd (dispose faults e)) = invoked e @ upToFault faults (teardown c ds)
       \<and> isDisposed (snd (dispose faults e)) = (firstFault faults (teardown c ds) = None)"
proof (cases "faults (Handlers BeforeDispose)")
  case (Some err)
  with live show ?thesis
    by (simp add: dispose_def Editor_triggerEvent_def withCore_def invoke_def andThen_def
        teardown_def outcome_def isDisposed_def)
next
  case h: None
  let ?ps = "map PluginDispose (plugins c)"
  let ?es = "map EventDisposer ds"
  let ?ds = "dataDisposers (customData c)"
  let ?k5 = "\<lambda>_::unit. andThen releaseContentDiv (\<lambda>_ e. returns () (e\<lparr>core := None\<rparr>))"
  let ?k4 = "\<lambda>_::unit. andThen (disposeCustomData faults) ?k5"
  let ?k3 = "\<lambda>_::unit. andThen (disposeEvents faults) ?k4"
  let ?k2 = "\<lambda>_::unit. andThen (disposePlugins faults) ?k3"
  have t: "teardown c ds = Handlers BeforeDispose # (?ps @ ?es @ ?ds)"
    by (simp add: teardown_def)
  from dispose_start[where faults = faults and k = ?k2, OF live h]
  obtain e1 c1 where d1: "dispose faults e = andThen (disposePlugins faults) ?k3 e1"
    and e1: "core e1 = Some c1" "plugins c1 = plugins c" "customData c1 = customData c"
      "eventDisposers e1 = Some ds" "omitContentEditable e1 = omitContentEditable e"
      "invoked e1 = invoked e @ [Handlers BeforeDispose]"
    unfolding dispose_def using ev by auto
  define e2 where "e2 = e1\<lparr>invoked := invoked e1 @ upToFault faults ?ps\<rparr>"
  have s2: "disposePlugins faults e1 = (outcome (firstFault faults ?ps), e2)"
    using e1(1,2) by (simp add: disposePlugins_def withCore_def forEach_invoke e2_def)
  have e2: "core e2 = Some c1" "eventDisposers e2 = Some ds" "omitContentEditable e2 = omitContentEditable e"
    "invoked e2 = invoked e @ Handlers BeforeDispose # upToFault faults ?ps"
    using e1 by (simp_all add: e2_def)
  show ?thesis
  proof (cases "firstFault faults ?ps")
    case (Some err)
    then have "dispose faults e = (Inl err, e2)"
      by (simp add: d1 s2 andThen_def outcome_def)
    with e2 h Some show ?thesis
      by (simp add: t outcome_def isDisposed_def firstFault_append upToFault_append upToFault_all)
  next
    case p: None
    then have d2: "dispose faults e = andThen (disposeEvents faults) ?k4 e2"
      by (simp add: d1 s2 andThen_def outcome_def)
    define e3 where "e3 = e2\<lparr>invoked := invoked e2 @ upToFault faults ?es\<rparr>"
    have s3: "forEach (\<lambda>d. invoke faults (EventDisposer d)) ds e2 = (outcome (firstFault faults ?es), e3)"
      by (simp add: forEach_invoke e3_def)
    have e3: "core e3 = Some c1" "omitContentEditable e3 = omitContentEditable e"
      "invoked e3 = invoked e @ Handlers BeforeDispose # upToFault faults ?ps @ upToFault faults ?es"
      using e2 by (simp_all add: e3_def)
    show ?thesis
    proof (cases "firstFault faults ?es")
      case (Some err)
      then have "dispose faults e = (Inl err, e3)"
        using e2(2) by (simp add: d2 disposeEvents_def s3 andThen_def outcome_def)
      with e3 h p Some show ?thesis
        by (simp add: t outcome_def isDisposed_def firstFault_append upToFault_append upToFault_all)
    next
      case d: None
      define e4 where "e4 = e3\<lparr>eventDisposers := None\<rparr>"
      have d3: "dispose faults e = andThen (disposeCustomData faults) ?k5 e4"
        using e2(2) d by (simp add: d2 disposeEvents_def s3 andThen_def outcome_def returns_def e4_def)
      have e4: "core e4 = Some c1" "omitContentEditable e4 = omitContentEditable e"
        "invoked e4 = invoked e @ Handlers BeforeDispose # upToFault faults ?ps @ upToFault faults ?es"
        using e3 by (simp_all add: e4_def)
      have keys1: "distinct (map fst (customData c1))" using keys e1(3) by simp
      obtain r5 e5 where r: "forEach (disposeEntry faults) (map fst (customData c1)) e4 = (r5, e5)"
        by (cases "forEach (disposeEntry faults) (map fst (customData c1)) e4")
      from disposeCustomData_loop[OF e4(1) refl keys1, of faults] r e1(3) e4
      have s5: "r5 = outcome (firstFault faults ?ds)"
        "invoked e5 = invoked e @ Handlers BeforeDispose # upToFault faults ?ps @ upToFault faults ?es
            @ upToFault faults ?ds"
        "core e5 \<noteq> None"
        by simp_all
      have s5': "disposeCustomData faults e4 = (r5, e5)"
        using e4(1) r by (simp add: disposeCustomData_def withCore_def)
      show ?thesis
      proof (cases "firstFault faults ?ds")
        case (Some err)
        then have "dispose faults e = (Inl err, e5)"
          using s5(1) by (simp add: d3 s5' andThen_def outcome_def)
        with s5 h p d Some show ?thesis
          by (simp add: t outcome_def isDisposed_def firstFault_append upToFault_append upToFault_all)
      next
        case None
        then have "fst (dispose faults e) = Inr () \<and> invoked (snd (dispose faults e)) = invoked e5
            \<and> core (snd (dispose faults e)) = None"
          using s5(1) by (simp add: d3 s5' andThen_def outcome_def releaseContentDiv_def returns_def)
        with s5 h p d None show ?thesis
          by (simp add: t outcome_def isDisposed_def firstFault_append upToFault_append upToFault_all)
      qed
    qed
  qed
qed

theorem dispose_witness:
  "fst (dispose noFaults exampleEditor) = Inr ()
   \<and> invoked (snd (dispose noFaults exampleEditor))
       = [Handlers BeforeDispose, PluginDispose ''Paste'', PluginDispose ''HyperLink'',
          EventDisposer ''keydown'', EventDisposer ''blur'', DataDisposer ''freeCache'' (Num 1)]
   \<and> isDisposed (snd (dispose noFaults exampleEditor))"
proof -
  let ?c = "\<lparr>idleLoopHandle = 7, plugins = [''Paste'', ''HyperLink''],
              customData = [(''cache'', Some \<lparr>dataValue = Num 1, disposer = Some ''freeCache''\<rparr>),
                            (''flag'', Some \<lparr>dataValue = Bool True, disposer = None\<rparr>)]\<rparr>"
  have live: "core exampleEditor = Some ?c" by (simp add: exampleEditor_def)
  have ev: "eventDisposers exampleEditor = Some [''keydown'', ''blur'']" by (simp add: exampleEditor_def)
  have keys: "distinct (map fst (customData ?c))" by simp
  from dispose_stops_at_first_throw[OF live ev keys, of noFaults]
  show ?thesis
    by (simp add: teardown_def dataDisposers_def noFaults_def outcome_def exampleEditor_def)
qed

text \<open>
  C3 as stated fails where a disposer throws: when the first plugin's \<open>dispose\<close> throws,
  the second plugin, the event disposers and the custom data disposer are never called,
  and the editor keeps its core.
\<close>

theorem dispose_abandons_the_rest:
  "dispose pasteFails exampleEditor =
     (Inl (Error ''paste''),
      exampleEditor\<lparr>core := Some \<lparr>idleLoopHandle = 0, plugins = [''Paste'', ''HyperLink''],
                                   customData = [(''cache'', Some \<lparr>dataValue = Num 1, disposer = Some ''freeCache''\<rparr>),
                                                 (''flag'', Some \<lparr>dataValue = Bool True, disposer = None\<rparr>)]\<rparr>,
                     clearedIntervals := [7],
                     invoked := [Handlers BeforeDispose, PluginDispose ''Paste'']\<rparr>)"
  by (simp add: dispose_def Editor_triggerEvent_def clearIdleLoop_def disposePlugins_def withCore_def
      invoke_def andThen_def returns_def exampleEditor_def pasteFails_def)

subsection \<open>A deferred callback after disposal\<close>

text \<open>
  C5. When the animation frame fires on a disposed editor, the closure that
  \<open>runAsync\<close> queued returns without an exception and without calling the callback,
  whatever the callback would have done: nothing but the queue changes.
\<close>

theorem runAsync_after_dispose:
  assumes "isDisposed e" and "animationFrames e = callback # rest"
  shows "animationFrame faults e = (Inr (), e\<lparr>animationFrames := rest\<rparr>)
       \<and> invoked (snd (animationFrame faults e)) = invoked e"
  using assms
  by (cases callback) (simp_all add: animationFrame_def runAsync_frame_def returns_def isDisposed_def)

lemma disposedWithFrame_eval:
  "disposedWithFrame =
     \<lparr>core = None, eventDisposers = None, omitContentEditable = False, contentEditable = False,
      userSelect = [], clearedIntervals = [7], animationFrames = [Some ''later''],
      invoked = [Handlers BeforeDispose, PluginDispose ''Paste'', PluginDispose ''HyperLink'',
                 EventDisposer ''keydown'', EventDisposer ''blur'', DataDisposer ''freeCache'' (Num 1)]\<rparr>"
  by (simp add: disposedWithFrame_def runAsync_def dispose_def Editor_triggerEvent_def clearIdleLoop_def
      disposePlugins_def disposeEvents_def disposeCustomData_def disposeEntry_def releaseContentDiv_def
      withCore_def invoke_def andThen_def returns_def exampleEditor_def noFaults_def)

theorem runAsync_after_dispose_witness:
  "isDisposed disposedWithFrame \<and> animationFrames disposedWithFrame = [Some ''later'']
   \<and> animationFrame allFail disposedWithFrame = (Inr (), disposedWithFrame\<lparr>animationFrames := []\<rparr>)
   \<and> invoked (snd (animationFrame allFail disposedWithFrame)) = invoked disposedWithFrame
   \<and> AsyncCallback ''later'' \<notin> set (invoked (snd (animationFrame allFail disposedWithFrame)))"
proof -
  have d: "isDisposed disposedWithFrame" by (simp add: disposedWithFrame_eval isDisposed_def)
  have q: "animationFrames disposedWithFrame = Some ''later'' # []" by (simp add: disposedWithFrame_eval)
  from runAsync_after_dispose[OF d q, of allFail] show ?thesis
    using d by (simp add: disposedWithFrame_eval)
qed

text \<open>On a live editor the same frame runs the callback, and its exception escapes.\<close>

lemma runAsync_on_live_editor:
  "andThen (runAsync (Some ''later'')) (\<lambda>_. animationFrame allFail) exampleEditor
     = (Inl (Error ''late''), exampleEditor\<lparr>invoked := [AsyncCallback ''later'']\<rparr>)"
  by (simp add: runAsync_def animationFrame_def runAsync_frame_def isDisposed_def withCore_def
      invoke_def andThen_def returns_def exampleEditor_def allFail_def)

section \<open>Properties of scopers, ranges and editor points\<close>

subsection \<open>The body scoper\<close>

text \<open>
  C6. For a body scoper over the root \<open>r\<close>, a block is in scope exactly when the root
  contains its start node; in particular every block whose start node is a node of the
  document at or below the root is in scope. Trimming returns the inline element it is
  given.
\<close>

theorem BodyScoper_scope:
  "BodyScoper_isBlockInScope doc (BodyScoper r) b = Node_contains doc r (getStartNode b)
   \<and> (nodeAt doc r \<noteq> None \<and> nodeAt doc (r @ path) \<noteq> None \<and> getStartNode b = r @ path
        \<longrightarrow> BodyScoper_isBlockInScope doc (BodyScoper r) b)
   \<and> BodyScoper_trimInlineElement (BodyScoper r) i = i"
  by (simp add: BodyScoper_isBlockInScope_def BodyScoper_trimInlineElement_def Node_contains_def)

theorem BodyScoper_scope_witness:
  "BodyScoper_isBlockInScope twoParagraphs (BodyScoper []) (NodeBlockElement [1])
   \<and> BodyScoper_trimInlineElement (BodyScoper []) (TextInline [1, 0] 0 5) = TextInline [1, 0] 0 5
   \<and> \<not> BodyScoper_isBlockInScope twoParagraphs (BodyScoper [0]) (NodeBlockElement [1])"
  using BodyScoper_scope[of twoParagraphs "[]" "NodeBlockElement [1]" "[1]" "TextInline [1, 0] 0 5"]
    BodyScoper_scope[of twoParagraphs "[0]" "NodeBlockElement [1]" "[]" "TextInline [1, 0] 0 5"]
  by (simp add: twoParagraphs_def Node_contains_def)

subsection \<open>The block scoper\<close>

lemma twoParagraphs_nodes:
  assumes "nodeAt twoParagraphs n \<noteq> None"
  shows "n = [] \<or> n = [0] \<or> n = [1] \<or> n = [0, 0] \<or> n = [1, 0]"
proof (cases n)
  case Nil
  then show ?thesis by simp
next
  case (Cons i r)
  with assms have i: "i = 0 \<or> i = 1"
    by (auto simp: twoParagraphs_def split: if_splits)
  show ?thesis
  proof (cases r)
    case Nil
    with Cons i show ?thesis by auto
  next
    case r: (Cons j r')
    with assms Cons i have j: "j = 0"
      by (auto simp: twoParagraphs_def split: if_splits)
    with assms Cons i r have "r' = []"
      by (cases r') (auto simp: twoParagraphs_def)
    with Cons i r j show ?thesis by auto
  qed
qed

lemma twoParagraphs_start_block:
  assumes "nodeAt twoParagraphs (node p) \<noteq> None"
  shows "blockElementAtPosition twoParagraphs [] p =
           Some (NodeBlockElement (if anchoredAtPart1 p then [0] else [1]))"
proof -
  have leaf: "lastLeaf (Element ''P'' [Text t]) = Some [0]" for t by simp
  from twoParagraphs_nodes[OF assms]
  consider "node p = []" "position.offset p = 0" | "node p = []" "position.offset p = 1"
    | "node p = []" "2 \<le> position.offset p" | "node p = [0]" "position.offset p = 0"
    | "node p = [0]" "1 \<le> position.offset p" | "node p = [1]" "position.offset p = 0"
    | "node p = [1]" "1 \<le> position.offset p" | "node p = [0, 0]" | "node p = [1, 0]"
    by (cases "position.offset p = 0"; cases "position.offset p = 1") auto
  then show ?thesis
    by cases
       (simp_all add: blockElementAtPosition_def normalize_def blockAncestor_def twoParagraphs_def
          isBlockLevel_def anchoredAtPart1_def leaf)
qed

text \<open>
  C7. In the content \<^verbatim>\<open><p>part1</p><p>part2</p>\<close>, for a block scoper anchored at
  any position of the document, the start block is the block of the first paragraph when
  the anchor is in the first paragraph or at the start of the root, and the block of the
  second paragraph otherwise; a block is in scope exactly when it equals that start
  block. So for a scoper anchored at part1 the block of part1 is in scope and the block
  of part2 is not, and for a scoper anchored at part2 it is the other way round.
\<close>

theorem BlockScoper_two_paragraphs:
  assumes "nodeAt twoParagraphs (node p) \<noteq> None"
  shows "block (newBlockScoper twoParagraphs [] p startAt)
           = Some (NodeBlockElement (if anchoredAtPart1 p then [0] else [1]))
       \<and> BlockScoper_isBlockInScope (newBlockScoper twoParagraphs [] p startAt) b
           = equals (NodeBlockElement (if anchoredAtPart1 p then [0] else [1])) b
       \<and> BlockScoper_isBlockInScope (newBlockScoper twoParagraphs [] p startAt) (NodeBlockElement [0])
           = anchoredAtPart1 p
       \<and> BlockScoper_isBlockInScope (newBlockScoper twoParagraphs [] p startAt) (NodeBlockElement [1])
           = (\<not> anchoredAtPart1 p)"
  using twoParagraphs_start_block[OF assms]
  by (simp add: BlockScoper_isBlockInScope_def newBlockScoper_def equals_def)

theorem BlockScoper_two_paragraphs_witness:
  "nodeAt twoParagraphs (node \<lparr>node = [], position.offset = 0, isAtEnd = False\<rparr>) \<noteq> None
   \<and> anchoredAtPart1 \<lparr>node = [], position.offset = 0, isAtEnd = False\<rparr>
   \<and> BlockScoper_isBlockInScope
        (newBlockScoper twoParagraphs [] \<lparr>node = [], position.offset = 0, isAtEnd = False\<rparr> SelectionStart)
        (NodeBlockElement [0])
   \<and> \<not> BlockScoper_isBlockInScope
        (newBlockScoper twoParagraphs [] \<lparr>node = [], position.offset = 0, isAtEnd = False\<rparr> SelectionStart)
        (NodeBlockElement [1])
   \<and> \<not> anchoredAtPart1 \<lparr>node = [1, 0], position.offset = 2, isAtEnd = False\<rparr>
   \<and> \<not> BlockScoper_isBlockInScope
        (newBlockScoper twoParagraphs [] \<lparr>node = [1, 0], position.offset = 2, isAtEnd = False\<rparr> SelectionStart)
        (NodeBlockElement [0])
   \<and> BlockScoper_isBlockInScope
        (newBlockScoper twoParagraphs [] \<lparr>node = [1, 0], position.offset = 2, isAtEnd = False\<rparr> SelectionStart)
        (NodeBlockElement [1])"
proof -
  have a: "nodeAt twoParagraphs (node \<lparr>node = [], position.offset = 0, isAtEnd = False\<rparr>) \<noteq> None"
    by simp
  have b: "nodeAt twoParagraphs (node \<lparr>node = [1, 0], position.offset = 2, isAtEnd = False\<rparr>) \<noteq> None"
    by (simp add: twoParagraphs_def)
  from BlockScoper_two_paragraphs[OF a, of SelectionStart "NodeBlockElement [0]"]
    BlockScoper_two_paragraphs[OF b, of SelectionStart "NodeBlockElement [0]"]
  show ?thesis
    by (simp add: anchoredAtPart1_def equals_def)
qed

text \<open>Without a block container the start block is the run of inline siblings up to the line break.\<close>

lemma BlockScoper_start_end_block:
  "block (newBlockScoper urlAndBreak [] \<lparr>node = [0], position.offset = 3, isAtEnd = False\<rparr> SelectionStart)
     = Some (StartEndBlockElement [0] [1])
   \<and> block (newBlockScoper urlAndBreak [] \<lparr>node = [], position.offset = 0, isAtEnd = False\<rparr> SelectionStart)
     = Some (StartEndBlockElement [0] [1])"
  by (simp add: newBlockScoper_def blockElementAtPosition_def normalize_def blockAncestor_def
      urlAndBreak_def isBlockLevel_def isLineBreak_def runEnd_def)

subsection \<open>Selection ranges\<close>

text \<open>
  C9. A selection range built from two positions is collapsed exactly when the two have
  the same container node and the same offset, and its start and end are the positions
  given; built from a single position, its end is its start and it is collapsed.
\<close>

theorem SelectionRange_collapsed:
  "collapsed (SelectionRange newPosition (FromPosition s) (Some e)) = samePosition s e
   \<and> start (SelectionRange newPosition (FromPosition s) (Some e)) = s
   \<and> end' (SelectionRange newPosition (FromPosition s) (Some e)) = e
   \<and> end' (SelectionRange newPosition (FromPosition s) None) = s
   \<and> start (SelectionRange newPosition (FromPosition s) None) = s
   \<and> collapsed (SelectionRange newPosition (FromPosition s) None)"
  by (simp add: SelectionRange_def samePosition_def)

subsection \<open>Editor points\<close>


lemma validateEditorPoint_inside:
  assumes "containerNode point = Some n" and "Editor_contains doc contentDiv n"
    and "nodeAt doc n = Some d"
  shows "validateEditorPoint doc contentDiv point =
           (0 \<le> offset point,
            if nodeTypeOf d = NodeType_Comment then point
            else point\<lparr>offset := min (offset point) (int (maxOffsetOfNode d))\<rparr>)"
  using assms by (cases d) (simp_all add: validateEditorPoint_def Let_def)



text \<open>
  Points in text nodes and elements that both pass the validation never make the range
  throw: the boundaries are set from the clamped points.
\<close>

lemma keepSelection_restore_clamped:
  assumes "containerNode startPoint = Some n" "Editor_contains doc contentDiv n" "nodeAt doc n = Some d"
    "nodeTypeOf d \<noteq> NodeType_Comment" "0 \<le> offset startPoint"
    and "containerNode endPoint = Some m" "Editor_contains doc contentDiv m" "nodeAt doc m = Some d'"
    "nodeTypeOf d' \<noteq> NodeType_Comment" "0 \<le> offset endPoint"
  shows "keepSelection_restore doc contentDiv (Some (r, startPoint, endPoint)) fb =
           Inr (SetStartEnd r
                  (startPoint\<lparr>offset := min (offset startPoint) (int (maxOffsetOfNode d))\<rparr>)
                  (endPoint\<lparr>offset := min (offset endPoint) (int (maxOffsetOfNode d'))\<rparr>))"
  using assms validateEditorPoint_inside[OF assms(1-3)] validateEditorPoint_inside[OF assms(6-8)]
  by (simp add: keepSelection_restore_def acceptsBoundary_def)


end
